theory Spec2Isabelle
  imports Complex_Main "HOL-Library.Multiset"
begin

section \<open>Face matching: the embedding of \<^verbatim>\<open>facematch/face_matching.py\<close>\<close>

text \<open>
  The module has one function, \<^verbatim>\<open>find_closest\<close>, and one class, \<^verbatim>\<open>FaceMatcher\<close>, with the
  method \<^verbatim>\<open>recoginze\<close> (the spelling is the source's). NumPy's floating-point numbers are
  idealised as \<^typ>\<open>real\<close>: rounding, the order of summation and NaN are outside the model.
\<close>

subsection \<open>Exceptions\<close>

text \<open>
  \<^verbatim>\<open>ValueError\<close> is what NumPy raises for operands whose shapes are not aligned and for
  \<^verbatim>\<open>argmax\<close>/\<^verbatim>\<open>max\<close> along an axis of length 0; \<^verbatim>\<open>IndexError\<close> is what a list raises for
  an index out of range. Nothing in the module catches an exception, so whatever a collaborator
  (detector, encoder) raises leaves \<^verbatim>\<open>recoginze\<close> unchanged: \<open>CollaboratorError\<close>.
\<close>

datatype error = ValueError | IndexError | CollaboratorError

subsection \<open>Two-dimensional arrays\<close>

text \<open>
  An \<^verbatim>\<open>np.ndarray\<close> of shape \<open>(n, d)\<close> is the list of its \<open>n\<close> rows together with \<open>d\<close>, which the
  rows alone do not determine when \<open>n = 0\<close>. Every row of an array has length \<open>d\<close>
  (\<open>is_ndarray\<close>).
\<close>

record ndarray =
  ncols :: nat
  rows :: "real list list"

definition nrows :: "ndarray \<Rightarrow> nat" where
  "nrows a = length (rows a)"

definition is_ndarray :: "ndarray \<Rightarrow> bool" where
  "is_ndarray a = list_all (\<lambda>r. length r = ncols a) (rows a)"

text \<open>\<^verbatim>\<open>a.T\<close>: the transpose, of shape \<open>(d, n)\<close>.\<close>

definition ndarray_T :: "ndarray \<Rightarrow> ndarray" where
  "ndarray_T a = \<lparr>ncols = nrows a, rows = map (\<lambda>k. map (\<lambda>r. r ! k) (rows a)) [0..<ncols a]\<rparr>"

text \<open>
  \<^verbatim>\<open>np.dot(a, b)\<close> on two-dimensional arrays is the matrix product; it raises
  \<^verbatim>\<open>ValueError\<close> (shapes not aligned) unless the columns of \<open>a\<close> are as many as the rows of \<open>b\<close>.
\<close>

definition np_dot :: "ndarray \<Rightarrow> ndarray \<Rightarrow> error + ndarray" where
  "np_dot a b =
     (if ncols a \<noteq> nrows b then Inl ValueError
      else Inr \<lparr>ncols = ncols b,
                rows = map (\<lambda>row. map (\<lambda>j. \<Sum>k\<leftarrow>[0..<ncols a]. row ! k * (rows b ! k ! j))
                                        [0..<ncols b])
                           (rows a)\<rparr>)"

text \<open>
  \<^verbatim>\<open>argmax\<close> of one row, as NumPy's loop computes it: the first element is the running
  maximum, and a later element replaces it only when it is not less than or equal to it, so
  the index of the first occurrence of the maximum is returned. The empty row is never
  reached: \<open>argmax_axis1\<close> raises before.
\<close>

fun argmax_loop :: "real list \<Rightarrow> nat \<Rightarrow> real \<Rightarrow> nat \<Rightarrow> nat" where
  "argmax_loop [] i mp max_ind = max_ind"
| "argmax_loop (x # xs) i mp max_ind =
     (if \<not> x \<le> mp then argmax_loop xs (Suc i) x i else argmax_loop xs (Suc i) mp max_ind)"

fun argmax :: "real list \<Rightarrow> nat" where
  "argmax [] = 0"
| "argmax (x # xs) = argmax_loop xs 1 x 0"

text \<open>\<^verbatim>\<open>max\<close> of one row: \<^verbatim>\<open>np.maximum\<close> reduced over the row from its first element.\<close>

fun amax :: "real list \<Rightarrow> real" where
  "amax [] = 0"
| "amax (x # xs) = fold max xs x"

text \<open>
  \<^verbatim>\<open>a.argmax(axis=1)\<close> and \<^verbatim>\<open>a.max(axis=1)\<close>: both raise \<^verbatim>\<open>ValueError\<close> when the reduced axis
  has length 0, whatever the number of rows.
\<close>

definition argmax_axis1 :: "ndarray \<Rightarrow> error + nat list" where
  "argmax_axis1 a = (if ncols a = 0 then Inl ValueError else Inr (map argmax (rows a)))"

definition max_axis1 :: "ndarray \<Rightarrow> error + real list" where
  "max_axis1 a = (if ncols a = 0 then Inl ValueError else Inr (map amax (rows a)))"

subsection \<open>\<^verbatim>\<open>find_closest\<close>\<close>

definition find_closest :: "ndarray \<Rightarrow> ndarray \<Rightarrow> error + (nat list \<times> real list)" where
  "find_closest embeddings references =
     (case np_dot embeddings (ndarray_T references) of
        Inl e \<Rightarrow> Inl e
      | Inr cosines \<Rightarrow>
          (case argmax_axis1 cosines of
             Inl e \<Rightarrow> Inl e
           | Inr best_matches \<Rightarrow>
               (case max_axis1 cosines of
                  Inl e \<Rightarrow> Inl e
                | Inr distances \<Rightarrow> Inr (best_matches, distances))))"

text \<open>
  The inner product of two vectors in the words of the specification,
  \<open>similarity(i, j) = dot(embeddings[i], references[j])\<close>; \<open>find_closest\<close> is compared with it.
\<close>

definition dot :: "real list \<Rightarrow> real list \<Rightarrow> real" where
  "dot u v = (\<Sum>k\<leftarrow>[0..<length u]. u ! k * v ! k)"

subsection \<open>\<^verbatim>\<open>FaceMatcher\<close>\<close>

text \<open>
  Modelled from the spec: the types of \<^verbatim>\<open>facematch.face_detection\<close> and
  \<^verbatim>\<open>facematch.face_encoding\<close>, which the module imports. A detected face has a bounding box
  \<open>(left, top, right, bottom)\<close> in pixel coordinates and a face image; the type of images is
  left open. The detector and the encoder are the functions \<^verbatim>\<open>find_faces\<close> and
  \<^verbatim>\<open>calculate_embeddings\<close> of the two collaborators; either may raise.
\<close>

type_synonym box = "int \<times> int \<times> int \<times> int"

record 'img face =
  box :: box
  image' :: 'img

record reference_set =
  names :: "string list"
  embeddings :: ndarray

record 'img face_matcher =
  reference :: reference_set
  detector :: "'img \<Rightarrow> error + 'img face list"
  encoder :: "'img list \<Rightarrow> error + ndarray"

text \<open>One dictionary of the result list, with its four keys.\<close>

record match_result =
  id' :: nat
  coordinates :: box
  best_match :: string
  distance :: real

text \<open>\<^verbatim>\<open>[names[i] for i in best_matches]\<close>: a list raises \<^verbatim>\<open>IndexError\<close> out of range.\<close>

definition lookup_names :: "string list \<Rightarrow> nat list \<Rightarrow> error + string list" where
  "lookup_names ns best_matches =
     (if list_all (\<lambda>i. i < length ns) best_matches then Inr (map (\<lambda>i. ns ! i) best_matches)
      else Inl IndexError)"

text \<open>The body of the list comprehension that builds one result.\<close>

definition make_result :: "real \<Rightarrow> nat \<times> box \<times> string \<times> real \<Rightarrow> match_result" where
  "make_result threshold = (\<lambda>(i, b, name, d).
     \<lparr>id' = i,
      coordinates = b,
      best_match = (if d > threshold then name else ''unknown''),
      distance = (if d > threshold then d else - 1)\<rparr>)"

text \<open>
  The calls that \<^verbatim>\<open>recoginze\<close> makes, in the order it makes them, are returned beside its
  result. \<^verbatim>\<open>sorted\<close> is Python's stable sort by a key: \<^const>\<open>sort_key\<close>. \<^verbatim>\<open>zip\<close> stops at the
  shortest of its arguments.
\<close>

datatype call = FindFaces | CalculateEmbeddings | FindClosest

definition recoginze :: "'img face_matcher \<Rightarrow> 'img \<Rightarrow> real \<Rightarrow> call list \<times> (error + match_result list)" where
  "recoginze self img threshold =
     (case detector self img of
        Inl e \<Rightarrow> ([FindFaces], Inl e)
      | Inr detected \<Rightarrow>
          if detected = [] then ([FindFaces], Inr [])
          else
            let face_images = map image' detected in
            (case encoder self face_images of
               Inl e \<Rightarrow> ([FindFaces, CalculateEmbeddings], Inl e)
             | Inr embs \<Rightarrow>
                 (case find_closest embs (embeddings (reference self)) of
                    Inl e \<Rightarrow> ([FindFaces, CalculateEmbeddings, FindClosest], Inl e)
                  | Inr (best_matches, distances) \<Rightarrow>
                      (case lookup_names (names (reference self)) best_matches of
                         Inl e \<Rightarrow> ([FindFaces, CalculateEmbeddings, FindClosest], Inl e)
                       | Inr nms \<Rightarrow>
                           let boxes = map box detected;
                               result = map (make_result threshold)
                                          (enumerate 0 (zip boxes (zip nms distances)))
                           in ([FindFaces, CalculateEmbeddings, FindClosest],
                               Inr (sort_key (\<lambda>x. fst (coordinates x)) result))))))"

subsection \<open>Notions of the specification\<close>

text \<open>The similarity of candidate \<open>i\<close> and reference \<open>j\<close>, as the specification defines it.\<close>

definition similarity :: "ndarray \<Rightarrow> ndarray \<Rightarrow> nat \<Rightarrow> nat \<Rightarrow> real" where
  "similarity embs refs i j = dot (rows embs ! i) (rows refs ! j)"

subsection \<open>Concrete inputs\<close>

text \<open>
  The vectors \<open>[1, 0]\<close> and \<open>[0, 1]\<close> of the specification's scenario, used as candidates and
  as references named alice and bob; one candidate that two references match equally well;
  and a reference array with no rows.
\<close>

definition scenario_vectors :: ndarray where
  "scenario_vectors = \<lparr>ncols = 2, rows = [[1, 0], [0, 1]]\<rparr>"

definition scenario_reference :: reference_set where
  "scenario_reference = \<lparr>names = [''alice'', ''bob''], embeddings = scenario_vectors\<rparr>"

definition tied_candidates :: ndarray where
  "tied_candidates = \<lparr>ncols = 2, rows = [[1, 1]]\<rparr>"

definition tied_references :: ndarray where
  "tied_references = \<lparr>ncols = 2, rows = [[0, 1], [1, 1], [1, 1]]\<rparr>"

definition no_references :: ndarray where
  "no_references = \<lparr>ncols = 2, rows = []\<rparr>"

definition three_vectors :: ndarray where
  "three_vectors = \<lparr>ncols = 2, rows = [[1, 0], [0, 1], [1 / 2, 1 / 2]]\<rparr>"

text \<open>
  A matcher over images that are numbers: the image \<open>n\<close> shows the first \<open>n\<close> of four faces,
  whose left coordinates are 50, 10, 30 and 10, and the encoder maps the face images 0 and 1
  to the vectors of alice and bob and any other to a vector halfway between them. A second
  matcher sees no face in any image, has an encoder that raises and no references.
\<close>

definition encode_image :: "nat \<Rightarrow> real list" where
  "encode_image k = (if k = 0 then [1, 0] else if k = 1 then [0, 1] else [1 / 2, 1 / 2])"

definition scenario_faces :: "nat face list" where
  "scenario_faces =
     [\<lparr>box = (50, 0, 60, 10), image' = 0\<rparr>, \<lparr>box = (10, 0, 20, 10), image' = 1\<rparr>,
      \<lparr>box = (30, 0, 40, 10), image' = 2\<rparr>, \<lparr>box = (10, 20, 20, 30), image' = 1\<rparr>]"

definition scenario_matcher :: "nat face_matcher" where
  "scenario_matcher =
     \<lparr>reference = scenario_reference,
      detector = (\<lambda>img. Inr (take img scenario_faces)),
      encoder = (\<lambda>imgs. Inr \<lparr>ncols = 2, rows = map encode_image imgs\<rparr>)\<rparr>"


definition blind_matcher :: "nat face_matcher" where
  "blind_matcher =
     \<lparr>reference = \<lparr>names = [], embeddings = no_references\<rparr>,
      detector = (\<lambda>img. Inr []),
      encoder = (\<lambda>imgs. Inl CollaboratorError)\<rparr>"

section \<open>Properties of \<^verbatim>\<open>find_closest\<close>\<close>

subsection \<open>The two reductions of a row\<close>

lemma argmax_loop_spec:
  assumes "max_ind < length ys" "i = length ys" "mp = ys ! max_ind"
    "\<forall>j<length ys. ys ! j \<le> mp" "\<forall>j<max_ind. ys ! j < mp"
  shows "argmax_loop xs i mp max_ind < length (ys @ xs) \<and>
         (\<forall>j<length (ys @ xs). (ys @ xs) ! j \<le> (ys @ xs) ! argmax_loop xs i mp max_ind) \<and>
         (\<forall>j<argmax_loop xs i mp max_ind. (ys @ xs) ! j < (ys @ xs) ! argmax_loop xs i mp max_ind)"
  using assms
proof (induction xs arbitrary: ys i mp max_ind)
  case Nil
  then show ?case by simp
next
  case (Cons x xs)
  show ?case
  proof (cases "x \<le> mp")
    case True
    have "argmax_loop xs (Suc i) mp max_ind < length ((ys @ [x]) @ xs) \<and>
         (\<forall>j<length ((ys @ [x]) @ xs). ((ys @ [x]) @ xs) ! j \<le> ((ys @ [x]) @ xs) ! argmax_loop xs (Suc i) mp max_ind) \<and>
         (\<forall>j<argmax_loop xs (Suc i) mp max_ind. ((ys @ [x]) @ xs) ! j < ((ys @ [x]) @ xs) ! argmax_loop xs (Suc i) mp max_ind)"
      using Cons.prems True
      by (intro Cons.IH) (auto simp: nth_append less_Suc_eq)
    with True show ?thesis by simp
  next
    case False
    have "argmax_loop xs (Suc i) x i < length ((ys @ [x]) @ xs) \<and>
         (\<forall>j<length ((ys @ [x]) @ xs). ((ys @ [x]) @ xs) ! j \<le> ((ys @ [x]) @ xs) ! argmax_loop xs (Suc i) x i) \<and>
         (\<forall>j<argmax_loop xs (Suc i) x i. ((ys @ [x]) @ xs) ! j < ((ys @ [x]) @ xs) ! argmax_loop xs (Suc i) x i)"
      using Cons.prems False
      by (intro Cons.IH) (auto simp: nth_append less_Suc_eq intro: order.strict_trans1 less_imp_le)
    with False show ?thesis by simp
  qed
qed

lemma argmax_spec:
  assumes "xs \<noteq> []"
  shows "argmax xs < length xs" "\<And>j. j < length xs \<Longrightarrow> xs ! j \<le> xs ! argmax xs"
    "\<And>j. j < argmax xs \<Longrightarrow> xs ! j < xs ! argmax xs"
proof -
  obtain x xs' where xs: "xs = x # xs'" using assms by (cases xs) auto
  have *: "argmax_loop xs' 1 x 0 < length ([x] @ xs') \<and>
         (\<forall>j<length ([x] @ xs'). ([x] @ xs') ! j \<le> ([x] @ xs') ! argmax_loop xs' 1 x 0) \<and>
         (\<forall>j<argmax_loop xs' 1 x 0. ([x] @ xs') ! j < ([x] @ xs') ! argmax_loop xs' 1 x 0)"
    by (rule argmax_loop_spec) auto
  show "argmax xs < length xs" using * xs by simp
  show "\<And>j. j < length xs \<Longrightarrow> xs ! j \<le> xs ! argmax xs" using * xs by simp
  show "\<And>j. j < argmax xs \<Longrightarrow> xs ! j < xs ! argmax xs" using * xs by simp
qed

lemma amax_Max: "xs \<noteq> [] \<Longrightarrow> amax xs = Max (set xs)"
  by (cases xs) (simp_all add: Max.set_eq_fold [symmetric] del: set_simps)

lemma nth_argmax_amax:
  assumes "xs \<noteq> []"
  shows "xs ! argmax xs = amax xs"
proof -
  have "Max (set xs) = xs ! argmax xs"
  proof (rule Max_eqI)
    show "finite (set xs)" by simp
    show "y \<le> xs ! argmax xs" if "y \<in> set xs" for y
      using that argmax_spec(2) [OF assms] by (auto simp: in_set_conv_nth)
    show "xs ! argmax xs \<in> set xs"
      using argmax_spec(1) [OF assms] by simp
  qed
  then show ?thesis by (simp add: amax_Max assms)
qed

lemma np_dot_T:
  "np_dot e (ndarray_T r) =
     (if ncols e \<noteq> ncols r then Inl ValueError
      else Inr \<lparr>ncols = nrows r,
                rows = map (\<lambda>u. map (\<lambda>v. \<Sum>k\<leftarrow>[0..<ncols e]. u ! k * v ! k) (rows r)) (rows e)\<rparr>)"
proof -
  have "map (\<lambda>j. \<Sum>k\<leftarrow>[0..<ncols r]. u ! k * (map (\<lambda>k. map (\<lambda>r. r ! k) (rows r)) [0..<ncols r] ! k ! j))
            [0..<length (rows r)]
        = map (\<lambda>v. \<Sum>k\<leftarrow>[0..<ncols r]. u ! k * v ! k) (rows r)" for u
  proof (rule nth_equalityI)
    fix i
    assume "i < length (map (\<lambda>j. \<Sum>k\<leftarrow>[0..<ncols r]. u ! k * (map (\<lambda>k. map (\<lambda>r. r ! k) (rows r)) [0..<ncols r] ! k ! j))
            [0..<length (rows r)])"
    then have i: "i < length (rows r)" by simp
    have "(\<Sum>k\<leftarrow>[0..<ncols r]. u ! k * (map (\<lambda>k. map (\<lambda>r. r ! k) (rows r)) [0..<ncols r] ! k ! i))
          = (\<Sum>k\<leftarrow>[0..<ncols r]. u ! k * rows r ! i ! k)"
      using i by (intro arg_cong [where f = sum_list]) simp
    with i show "map (\<lambda>j. \<Sum>k\<leftarrow>[0..<ncols r]. u ! k * (map (\<lambda>k. map (\<lambda>r. r ! k) (rows r)) [0..<ncols r] ! k ! j))
            [0..<length (rows r)] ! i
        = map (\<lambda>v. \<Sum>k\<leftarrow>[0..<ncols r]. u ! k * v ! k) (rows r) ! i"
      by simp
  qed simp
  then show ?thesis
    by (simp add: np_dot_def ndarray_T_def nrows_def)
qed

lemma find_closest_eq:
  "find_closest e r =
     (if ncols e \<noteq> ncols r \<or> rows r = [] then Inl ValueError
      else Inr (map (\<lambda>u. argmax (map (\<lambda>v. \<Sum>k\<leftarrow>[0..<ncols e]. u ! k * v ! k) (rows r))) (rows e),
                map (\<lambda>u. amax (map (\<lambda>v. \<Sum>k\<leftarrow>[0..<ncols e]. u ! k * v ! k) (rows r))) (rows e)))"
  by (simp add: find_closest_def np_dot_T argmax_axis1_def max_axis1_def nrows_def comp_def)

lemma find_closest_dot:
  assumes "is_ndarray e"
  shows "find_closest e r =
     (if ncols e \<noteq> ncols r \<or> rows r = [] then Inl ValueError
      else Inr (map (\<lambda>u. argmax (map (dot u) (rows r))) (rows e),
                map (\<lambda>u. amax (map (dot u) (rows r))) (rows e)))"
  using assms
  by (simp add: find_closest_eq is_ndarray_def list_all_iff dot_def cong: map_cong)

subsection \<open>The result of \<^verbatim>\<open>find_closest\<close> in closed form\<close>

lemma set_similarity_row:
  "i < nrows e \<Longrightarrow> set (map (dot (rows e ! i)) (rows r)) = similarity e r i ` {..<nrows r}"
proof -
  have "set (rows r) = (\<lambda>j. rows r ! j) ` {..<nrows r}"
    by (auto simp: nrows_def in_set_conv_nth)
  then show ?thesis
    by (simp add: similarity_def [abs_def] image_image)
qed

lemmas find_closest_eval =
  find_closest_def np_dot_def ndarray_T_def nrows_def argmax_axis1_def max_axis1_def upt_rec

subsection \<open>Best index and best score\<close>

text \<open>
  C1: for \<open>N\<close> candidate embeddings and \<open>M \<ge> 1\<close> reference embeddings of one dimension,
  \<open>find_closest\<close> returns two sequences of length \<open>N\<close>; for every \<open>i\<close> the best index is below
  \<open>M\<close> and maximises the similarity of candidate \<open>i\<close> over the references, and the best score
  is the maximum of these similarities.
\<close>

theorem find_closest_best_matches:
  assumes "is_ndarray embs" "ncols embs = ncols refs" "rows refs \<noteq> []"
  shows "\<exists>best_index best_score.
           find_closest embs refs = Inr (best_index, best_score) \<and>
           length best_index = nrows embs \<and> length best_score = nrows embs \<and>
           (\<forall>i<nrows embs.
              best_index ! i < nrows refs \<and>
              is_arg_max (similarity embs refs i) (\<lambda>j. j < nrows refs) (best_index ! i) \<and>
              best_score ! i = Max (similarity embs refs i ` {..<nrows refs}))"
proof -
  let ?row = "\<lambda>u. map (dot u) (rows refs)"
  let ?bi = "map (\<lambda>u. argmax (?row u)) (rows embs)"
  let ?bs = "map (\<lambda>u. amax (?row u)) (rows embs)"
  have fc: "find_closest embs refs = Inr (?bi, ?bs)"
    using assms by (simp add: find_closest_dot)
  have "?bi ! i < nrows refs \<and>
        is_arg_max (similarity embs refs i) (\<lambda>j. j < nrows refs) (?bi ! i) \<and>
        ?bs ! i = Max (similarity embs refs i ` {..<nrows refs})"
    if i: "i < nrows embs" for i
  proof -
    let ?u = "rows embs ! i"
    have ne: "?row ?u \<noteq> []" using assms(3) by simp
    have lt: "argmax (?row ?u) < nrows refs"
      using argmax_spec(1) [OF ne] by (simp add: nrows_def)
    have le: "\<forall>j<nrows refs.
                similarity embs refs i j \<le> similarity embs refs i (argmax (?row ?u))"
      using argmax_spec(2) [OF ne] lt by (simp add: nrows_def similarity_def)
    have "amax (?row ?u) = Max (similarity embs refs i ` {..<nrows refs})"
      using amax_Max [OF ne] set_similarity_row [OF i] by simp
    moreover have "?bi ! i = argmax (?row ?u)" "?bs ! i = amax (?row ?u)"
      using i by (simp_all add: nrows_def)
    ultimately show ?thesis
      using lt le by (fastforce simp: is_arg_max_def)
  qed
  with fc show ?thesis
    by (intro exI [of _ ?bi] exI [of _ ?bs]) (simp add: nrows_def)
qed

theorem find_closest_best_matches_witness:
  "is_ndarray scenario_vectors \<and> ncols scenario_vectors = ncols scenario_vectors \<and>
   rows scenario_vectors \<noteq> [] \<and>
   find_closest scenario_vectors scenario_vectors = Inr ([0, 1], [1, 1]) \<and>
   is_arg_max (similarity scenario_vectors scenario_vectors 1) (\<lambda>j. j < nrows scenario_vectors) 1 \<and>
   Max (similarity scenario_vectors scenario_vectors 1 ` {..<nrows scenario_vectors}) = 1"
proof -
  have h1: "is_ndarray scenario_vectors" by (simp add: is_ndarray_def scenario_vectors_def)
  have h2: "ncols scenario_vectors = ncols scenario_vectors" by (rule refl)
  have h3: "rows scenario_vectors \<noteq> []" by (simp add: scenario_vectors_def)
  have ev: "find_closest scenario_vectors scenario_vectors = Inr ([0, 1], [1, 1])"
    by (simp add: scenario_vectors_def find_closest_eval)
  have n: "(1::nat) < nrows scenario_vectors" by (simp add: scenario_vectors_def nrows_def)
  from find_closest_best_matches [OF h1 h2 h3] obtain bi bs where
    fc: "find_closest scenario_vectors scenario_vectors = Inr (bi, bs)" and
    best: "\<forall>i<nrows scenario_vectors.
             bi ! i < nrows scenario_vectors \<and>
             is_arg_max (similarity scenario_vectors scenario_vectors i)
               (\<lambda>j. j < nrows scenario_vectors) (bi ! i) \<and>
             bs ! i = Max (similarity scenario_vectors scenario_vectors i ` {..<nrows scenario_vectors})"
    by blast
  from fc [symmetric] ev
  have "Inr (bi, bs) = (Inr ([0, 1], [1, 1]) :: error + nat list \<times> real list)"
    by (rule trans)
  then have "bi = [0, 1]" and "bs = [1, 1]" by simp_all
  then have bi: "bi ! 1 = 1" and bs: "bs ! 1 = 1" by simp_all
  note at1 = best [THEN spec, THEN mp, OF n, THEN conjunct2]
  from at1 [THEN conjunct1]
  have a: "is_arg_max (similarity scenario_vectors scenario_vectors 1)
             (\<lambda>j. j < nrows scenario_vectors) 1"
    by (simp only: bi)
  from at1 [THEN conjunct2, symmetric]
  have m: "Max (similarity scenario_vectors scenario_vectors 1 ` {..<nrows scenario_vectors}) = 1"
    by (simp only: bs)
  show ?thesis by (intro conjI h1 h2 h3 ev a m)
qed

text \<open>
  C5: when several references attain the maximum similarity of a candidate, \<open>find_closest\<close>
  returns the lowest of their indices: the best index is the least \<open>j\<close> whose similarity is the
  maximum of the row.
\<close>

theorem find_closest_lowest_index:
  assumes "is_ndarray embs" "ncols embs = ncols refs" "rows refs \<noteq> []"
    and "find_closest embs refs = Inr (best_index, best_score)"
    and "i < nrows embs"
  shows "best_index ! i =
           (LEAST j. j < nrows refs \<and>
                     similarity embs refs i j =
                       Max (similarity embs refs i ` {..<nrows refs}))"
proof -
  let ?row = "map (dot (rows embs ! i)) (rows refs)"
  have ne: "?row \<noteq> []" using assms(3) by simp
  have bi: "best_index ! i = argmax ?row"
    using assms by (auto simp: find_closest_dot nrows_def)
  have lt: "argmax ?row < nrows refs"
    using argmax_spec(1) [OF ne] by (simp add: nrows_def)
  have mx: "Max (similarity embs refs i ` {..<nrows refs}) = ?row ! argmax ?row"
    using amax_Max [OF ne] nth_argmax_amax [OF ne] set_similarity_row [OF assms(5)] by simp
  have sim: "similarity embs refs i j = ?row ! j" if "j < nrows refs" for j
    using that by (simp add: similarity_def nrows_def)
  show ?thesis
    unfolding bi
  proof (rule Least_equality [symmetric])
    show "argmax ?row < nrows refs \<and>
          similarity embs refs i (argmax ?row) =
            Max (similarity embs refs i ` {..<nrows refs})"
      using lt mx sim by simp
  next
    fix y
    assume y: "y < nrows refs \<and>
          similarity embs refs i y =
            Max (similarity embs refs i ` {..<nrows refs})"
    show "argmax ?row \<le> y"
    proof (rule ccontr)
      assume "\<not> argmax ?row \<le> y"
      then have "?row ! y < ?row ! argmax ?row"
        using argmax_spec(3) [OF ne, of y] by simp
      moreover have "similarity embs refs i y = ?row ! argmax ?row"
        using y mx by simp
      moreover have "similarity embs refs i y = ?row ! y"
        using y sim by blast
      ultimately show False by simp
    qed
  qed
qed

theorem find_closest_lowest_index_witness:
  "is_ndarray tied_candidates \<and> ncols tied_candidates = ncols tied_references \<and>
   rows tied_references \<noteq> [] \<and>
   find_closest tied_candidates tied_references = Inr ([1], [2]) \<and> 0 < nrows tied_candidates \<and>
   similarity tied_candidates tied_references 0 1 = 2 \<and>
   similarity tied_candidates tied_references 0 2 = 2 \<and>
   (LEAST j. j < nrows tied_references \<and>
             similarity tied_candidates tied_references 0 j =
               Max (similarity tied_candidates tied_references 0 ` {..<nrows tied_references})) = 1"
proof -
  have h1: "is_ndarray tied_candidates" by (simp add: is_ndarray_def tied_candidates_def)
  have h2: "ncols tied_candidates = ncols tied_references"
    by (simp add: tied_candidates_def tied_references_def)
  have h3: "rows tied_references \<noteq> []" by (simp add: tied_references_def)
  have ev: "find_closest tied_candidates tied_references = Inr ([1], [2])"
    by (simp add: tied_candidates_def tied_references_def find_closest_eval)
  have n: "0 < nrows tied_candidates" by (simp add: tied_candidates_def nrows_def)
  have s1: "similarity tied_candidates tied_references 0 1 = 2"
    by (simp add: similarity_def dot_def tied_candidates_def tied_references_def upt_rec)
  have s2: "similarity tied_candidates tied_references 0 2 = 2"
    by (simp add: similarity_def dot_def tied_candidates_def tied_references_def upt_rec)
  have "[1 :: nat] ! 0 = 1" by simp
  with find_closest_lowest_index [OF h1 h2 h3 ev n, symmetric]
  have l: "(LEAST j. j < nrows tied_references \<and>
             similarity tied_candidates tied_references 0 j =
               Max (similarity tied_candidates tied_references 0 ` {..<nrows tied_references})) = 1"
    by (rule trans)
  show ?thesis by (intro conjI h1 h2 h3 ev n s1 s2 l)
qed

subsection \<open>No references\<close>

text \<open>
  C3: with an empty reference set (\<open>M = 0\<close>) \<open>find_closest\<close> returns no result: it raises
  \<^verbatim>\<open>ValueError\<close>, the exception of NumPy for an input that is not valid. This holds for any
  number of candidates, in particular for at least one.
\<close>

theorem find_closest_empty_references:
  assumes "rows refs = []"
  shows "find_closest embs refs = Inl ValueError"
  using assms by (simp add: find_closest_eq)

theorem find_closest_empty_references_witness:
  "rows no_references = [] \<and> rows scenario_vectors \<noteq> [] \<and>
   find_closest scenario_vectors no_references = Inl ValueError"
proof -
  have h: "rows no_references = []" by (simp add: no_references_def)
  have ne: "rows scenario_vectors \<noteq> []" by (simp add: scenario_vectors_def)
  show ?thesis by (intro conjI h ne find_closest_empty_references [OF h])
qed

subsection \<open>Best matches are indices of names\<close>

text \<open>
  C9: when the reference set has as many names as embeddings, every best-match index that
  \<open>find_closest\<close> produces is an index of the names, so the lookup of the names that
  \<^verbatim>\<open>recoginze\<close> does raises no \<^verbatim>\<open>IndexError\<close>.
\<close>

theorem best_matches_within_names:
  assumes "length (names ref) = nrows (embeddings ref)"
    and "find_closest candidates (embeddings ref) = Inr (best_matches, distances)"
  shows "(\<forall>i\<in>set best_matches. i < length (names ref)) \<and>
         lookup_names (names ref) best_matches = Inr (map (\<lambda>i. names ref ! i) best_matches)"
proof -
  let ?row = "\<lambda>u. map (\<lambda>v. \<Sum>k\<leftarrow>[0..<ncols candidates]. u ! k * v ! k) (rows (embeddings ref))"
  from assms(2) have ne: "rows (embeddings ref) \<noteq> []"
    and bm: "best_matches = map (\<lambda>u. argmax (?row u)) (rows candidates)"
    by (simp_all add: find_closest_eq split: if_splits)
  have "i < length (names ref)" if "i \<in> set best_matches" for i
  proof -
    from that bm obtain u where i: "i = argmax (?row u)" by auto
    from ne have "?row u \<noteq> []" by simp
    then have "argmax (?row u) < length (?row u)" by (rule argmax_spec(1))
    with i assms(1) show ?thesis by (simp add: nrows_def)
  qed
  then have "\<forall>i\<in>set best_matches. i < length (names ref)" by blast
  then show ?thesis
    by (simp add: lookup_names_def list_all_iff)
qed

theorem best_matches_within_names_witness:
  "length (names scenario_reference) = nrows (embeddings scenario_reference) \<and>
   find_closest scenario_vectors (embeddings scenario_reference) = Inr ([0, 1], [1, 1]) \<and>
   0 < length (names scenario_reference) \<and> 1 < length (names scenario_reference) \<and>
   lookup_names (names scenario_reference) [0, 1] = Inr [''alice'', ''bob'']"
proof -
  have h1: "length (names scenario_reference) = nrows (embeddings scenario_reference)"
    by (simp add: scenario_reference_def scenario_vectors_def nrows_def)
  have ev: "find_closest scenario_vectors (embeddings scenario_reference) = Inr ([0, 1], [1, 1])"
    by (simp add: scenario_reference_def scenario_vectors_def find_closest_eval)
  note inst = best_matches_within_names [OF h1 ev]
  have "(0 :: nat) \<in> set [0, 1]" by simp
  from inst [THEN conjunct1, THEN bspec, OF this]
  have a: "0 < length (names scenario_reference)" .
  have "(1 :: nat) \<in> set [0, 1]" by simp
  from inst [THEN conjunct1, THEN bspec, OF this]
  have b: "1 < length (names scenario_reference)" .
  have m: "map (\<lambda>i. names scenario_reference ! i) [0, 1] = [''alice'', ''bob'']"
    by (simp add: scenario_reference_def)
  from inst [THEN conjunct2]
  have c: "lookup_names (names scenario_reference) [0, 1] = Inr [''alice'', ''bob'']"
    by (simp only: m)
  show ?thesis by (intro conjI h1 ev a b c)
qed

section \<open>Properties of \<^verbatim>\<open>recoginze\<close>\<close>

subsection \<open>A stable sort by key\<close>

text \<open>
  \<^const>\<open>sort_key\<close> commutes with a map that preserves the key, and it is stable: a list
  in increasing order of a secondary key \<open>g\<close> is sorted into lexicographic order of the key
  and \<open>g\<close>.
\<close>

lemma insort_key_map:
  "insort_key f (g x) (map g ys) = map g (insort_key (\<lambda>y. f (g y)) x ys)"
  by (induction ys) simp_all

lemma sort_key_map:
  "sort_key f (map g xs) = map g (sort_key (\<lambda>y. f (g y)) xs)"
  by (induction xs) (simp_all add: insort_key_map)

lemma insort_key_stable:
  fixes g :: "'a \<Rightarrow> nat"
  assumes "sorted_wrt (\<lambda>a b. f a < f b \<or> (f a = f b \<and> g a < g b)) ys"
    and "\<forall>y\<in>set ys. g x < g y"
  shows "sorted_wrt (\<lambda>a b. f a < f b \<or> (f a = f b \<and> g a < g b)) (insort_key f x ys)"
  using assms
proof (induction ys)
  case Nil
  then show ?case by simp
next
  case (Cons y ys)
  show ?case
  proof (cases "f x \<le> f y")
    case True
    have "f x < f z \<or> (f x = f z \<and> g x < g z)" if "z \<in> set (y # ys)" for z
    proof -
      have "f y \<le> f z" using that Cons.prems(1) by auto
      with True have "f x \<le> f z" by simp
      moreover have "g x < g z" using that Cons.prems(2) by auto
      ultimately show ?thesis by auto
    qed
    with True Cons.prems(1) show ?thesis by simp
  next
    case False
    with Cons show ?thesis by (auto simp: set_insort_key)
  qed
qed

lemma sort_key_stable_lex:
  fixes g :: "'a \<Rightarrow> nat"
  assumes "sorted_wrt (\<lambda>a b. g a < g b) xs"
  shows "sorted_wrt (\<lambda>a b. f a < f b \<or> (f a = f b \<and> g a < g b)) (sort_key f xs)"
  using assms
  by (induction xs) (simp_all add: insort_key_stable)

subsection \<open>The result list in closed form\<close>

text \<open>
  A successful call either saw no face and returns the empty list, or returns the results made
  from the tuples of the comprehension, sorted by the left coordinate of the box.
\<close>

lemma sort_key_make_result:
  "sort_key (\<lambda>x. fst (coordinates x)) (map (make_result t) xs) =
   map (make_result t) (sort_key (\<lambda>(i, b, n, d). fst b) xs)"
proof -
  have "(\<lambda>y. fst (coordinates (make_result t y))) = (\<lambda>(i, b, n, d). fst b)"
    by (auto simp: make_result_def)
  then show ?thesis by (simp add: sort_key_map)
qed

lemma find_closest_lengths:
  assumes "find_closest embs refs = Inr (bm, ds)"
  shows "length bm = nrows embs" "length ds = nrows embs"
  using assms by (auto simp: find_closest_eq nrows_def split: if_splits)

lemma recoginze_Inr:
  assumes "snd (recoginze self img t) = Inr rs" and "detector self img = Inr detected"
  shows "(detected = [] \<and> rs = []) \<or>
         (detected \<noteq> [] \<and>
          (\<exists>embs bm ds.
             encoder self (map image' detected) = Inr embs \<and>
             find_closest embs (embeddings (reference self)) = Inr (bm, ds) \<and>
             (\<forall>i\<in>set bm. i < length (names (reference self))) \<and>
             rs = map (make_result t)
                    (sort_key (\<lambda>(i, b, n, d). fst b)
                       (enumerate 0 (zip (map box detected)
                          (zip (map (\<lambda>i. names (reference self) ! i) bm) ds))))))"
  using assms
  by (auto simp: recoginze_def Let_def lookup_names_def list_all_iff sort_key_make_result
      split: sum.splits if_splits prod.splits)

lemma in_set_tuples:
  "(i, b, n, d) \<in> set (enumerate 0 (zip bs (zip ns ds))) \<longleftrightarrow>
   i < length bs \<and> i < length ns \<and> i < length ds \<and> b = bs ! i \<and> n = ns ! i \<and> d = ds ! i"
  by (auto simp: in_set_enumerate_eq)


lemma make_result_raise_threshold:
  assumes "t1 \<le> t2"
  shows "id' (make_result t2 x) = id' (make_result t1 x) \<and>
         coordinates (make_result t2 x) = coordinates (make_result t1 x) \<and>
         (best_match (make_result t1 x) = ''unknown'' \<longrightarrow> best_match (make_result t2 x) = ''unknown'') \<and>
         (make_result t2 x = make_result t1 x \<or>
          make_result t2 x = (make_result t1 x)\<lparr>best_match := ''unknown'', distance := - 1\<rparr>)"
  using assms by (cases x) (auto simp: make_result_def)

lemmas recoginze_eval =
  recoginze_def scenario_matcher_def scenario_faces_def scenario_reference_def
  scenario_vectors_def encode_image_def find_closest_eval lookup_names_def make_result_def
  enumerate_eq_zip Let_def

subsection \<open>No faces\<close>

text \<open>
  C6: when the detector returns no faces, \<^verbatim>\<open>recoginze\<close> returns the empty list, and the only
  call it has made is the detector's: neither the encoder nor \<open>find_closest\<close> is invoked, so
  neither an encoder that would raise nor an empty reference set changes the result.
\<close>

theorem recoginze_no_faces:
  assumes "detector self img = Inr []"
  shows "recoginze self img threshold = ([FindFaces], Inr [])"
  using assms by (simp add: recoginze_def)

theorem recoginze_no_faces_witness:
  "detector blind_matcher 0 = Inr [] \<and>
   encoder blind_matcher [] = Inl CollaboratorError \<and>
   find_closest scenario_vectors (embeddings (reference blind_matcher)) = Inl ValueError \<and>
   recoginze blind_matcher 0 0 = ([FindFaces], Inr [])"
proof -
  have h: "detector blind_matcher 0 = Inr []" by (simp add: blind_matcher_def)
  have enc: "encoder blind_matcher [] = Inl CollaboratorError" by (simp add: blind_matcher_def)
  have fc: "find_closest scenario_vectors (embeddings (reference blind_matcher)) = Inl ValueError"
    by (simp add: blind_matcher_def no_references_def scenario_vectors_def find_closest_eval)
  show ?thesis by (intro conjI h enc fc recoginze_no_faces [OF h])
qed

subsection \<open>Results and faces\<close>










subsection \<open>Order of the results\<close>

text \<open>
  C4: the results are in ascending order of the left coordinate of their boxes, and results
  with equal left coordinates are in the order in which their faces were detected: the
  earlier one in the list has the smaller identifier, and the identifier of a result is the
  position of its face in the detector's output.
\<close>

theorem recoginze_sorted_left_to_right:
  assumes "detector self img = Inr detected"
    and "snd (recoginze self img threshold) = Inr rs"
  shows "sorted (map (\<lambda>r. fst (coordinates r)) rs) \<and>
         (\<forall>p q. p < q \<and> q < length rs \<and> fst (coordinates (rs ! p)) = fst (coordinates (rs ! q))
                \<longrightarrow> id' (rs ! p) < id' (rs ! q)) \<and>
         (\<forall>r\<in>set rs. id' r < length detected \<and> coordinates r = box (detected ! id' r))"
proof (cases "detected = []")
  case True
  with recoginze_Inr [OF assms(2) assms(1)] show ?thesis by simp
next
  case False
  with recoginze_Inr [OF assms(2) assms(1)] obtain bm ds where
    rs: "rs = map (make_result threshold)
                    (sort_key (\<lambda>(i, b, n, d). fst b)
                       (enumerate 0 (zip (map box detected)
                          (zip (map (\<lambda>i. names (reference self) ! i) bm) ds))))"
    by blast
  let ?key = "\<lambda>(i, b, n, d). fst b :: int"
  let ?T = "enumerate 0 (zip (map box detected) (zip (map (\<lambda>i. names (reference self) ! i) bm) ds))"
  let ?L = "\<lambda>a b. fst (coordinates a) < fst (coordinates b) \<or>
                   (fst (coordinates a) = fst (coordinates b) \<and> id' a < id' b)"
  have key: "(\<lambda>x. fst (coordinates (make_result threshold x))) = ?key"
    by (auto simp: make_result_def)
  have "map (\<lambda>r. fst (coordinates r)) rs = map ?key (sort_key ?key ?T)"
    by (simp add: rs comp_def key)
  then have 1: "sorted (map (\<lambda>r. fst (coordinates r)) rs)"
    by (simp only: sorted_sort_key)
  have "sorted_wrt (<) (map fst ?T)"
    by (simp only: map_fst_enumerate sorted_wrt_upt)
  then have "sorted_wrt (\<lambda>a b. fst a < fst b) ?T"
    by (simp only: sorted_wrt_map)
  then have "sorted_wrt (\<lambda>a b. ?key a < ?key b \<or> (?key a = ?key b \<and> fst a < fst b)) (sort_key ?key ?T)"
    by (rule sort_key_stable_lex)
  moreover have "(\<lambda>a b. ?L (make_result threshold a) (make_result threshold b)) =
                 (\<lambda>a b. ?key a < ?key b \<or> (?key a = ?key b \<and> fst a < fst b))"
    by (auto simp: make_result_def fun_eq_iff)
  ultimately have "sorted_wrt ?L rs"
    by (simp only: rs sorted_wrt_map)
  then have 2: "\<forall>p q. p < q \<and> q < length rs \<and> fst (coordinates (rs ! p)) = fst (coordinates (rs ! q))
                \<longrightarrow> id' (rs ! p) < id' (rs ! q)"
    by (auto dest: sorted_wrt_nth_less)
  have 3: "id' r < length detected \<and> coordinates r = box (detected ! id' r)" if "r \<in> set rs" for r
  proof -
    from that rs obtain i b n d where "(i, b, n, d) \<in> set ?T" "r = make_result threshold (i, b, n, d)"
      by auto
    then show ?thesis
      by (simp add: in_set_tuples make_result_def)
  qed
  from 1 2 3 show ?thesis by blast
qed

theorem recoginze_sorted_left_to_right_witness:
  "detector scenario_matcher 4 = Inr scenario_faces \<and>
   snd (recoginze scenario_matcher 4 (1 / 2)) =
     Inr [\<lparr>id' = 1, coordinates = (10, 0, 20, 10), best_match = ''bob'', distance = 1\<rparr>,
          \<lparr>id' = 3, coordinates = (10, 20, 20, 30), best_match = ''bob'', distance = 1\<rparr>,
          \<lparr>id' = 2, coordinates = (30, 0, 40, 10), best_match = ''unknown'', distance = - 1\<rparr>,
          \<lparr>id' = 0, coordinates = (50, 0, 60, 10), best_match = ''alice'', distance = 1\<rparr>] \<and>
   sorted [10, 10, 30, 50 :: int] \<and> (1 :: nat) < 3 \<and>
   3 < length scenario_faces \<and> (10, 20, 20, 30) = box (scenario_faces ! 3)"
proof -
  let ?r = "\<lparr>id' = 3, coordinates = (10, 20, 20, 30), best_match = ''bob'', distance = 1\<rparr>"
  let ?rs = "[\<lparr>id' = 1, coordinates = (10, 0, 20, 10), best_match = ''bob'', distance = 1\<rparr>, ?r,
          \<lparr>id' = 2, coordinates = (30, 0, 40, 10), best_match = ''unknown'', distance = - 1\<rparr>,
          \<lparr>id' = 0, coordinates = (50, 0, 60, 10), best_match = ''alice'', distance = 1\<rparr>]"
  have det: "detector scenario_matcher 4 = Inr scenario_faces"
    by (simp add: scenario_matcher_def scenario_faces_def)
  have ev: "snd (recoginze scenario_matcher 4 (1 / 2)) = Inr ?rs"
    by (simp add: recoginze_eval)
  note inst = recoginze_sorted_left_to_right [OF det ev]
  have keys: "map (\<lambda>r. fst (coordinates r)) ?rs = [10, 10, 30, 50]" by simp
  from inst [THEN conjunct1]
  have a: "sorted [10, 10, 30, 50 :: int]"
    by (simp only: keys)
  have tie: "(0 :: nat) < 1 \<and> 1 < length ?rs \<and>
             fst (coordinates (?rs ! 0)) = fst (coordinates (?rs ! 1))"
    by simp
  have ids: "id' (?rs ! 0) = 1" "id' (?rs ! 1) = 3" by simp_all
  from inst [THEN conjunct2, THEN conjunct1, THEN spec, THEN spec, THEN mp, OF tie]
  have b: "(1 :: nat) < 3"
    by (simp only: ids)
  have mem: "?r \<in> set ?rs" by simp
  have r: "coordinates ?r = (10, 20, 20, 30)" "id' ?r = 3" by simp_all
  note at_r = inst [THEN conjunct2, THEN conjunct2, THEN bspec, OF mem]
  from at_r [THEN conjunct1]
  have c: "3 < length scenario_faces"
    by (simp only: r)
  from at_r [THEN conjunct2]
  have d: "(10, 20, 20, 30) = box (scenario_faces ! 3)"
    by (simp only: r)
  show ?thesis by (intro conjI det ev a b c d)
qed

subsection \<open>The threshold\<close>

text \<open>
  C2: for every detected face \<open>i\<close> there is a result, and it is decided by the best score of
  the face: above the threshold, the label is the name of the best-matching reference and the
  score is the best score itself; at or below the threshold, in particular when it equals the
  threshold, the label is \<open>unknown\<close> and the score is \<open>-1\<close>.
\<close>

theorem recoginze_threshold_rule:
  assumes "detector self img = Inr detected"
    and "encoder self (map image' detected) = Inr embs"
    and "nrows embs = length detected"
    and "find_closest embs (embeddings (reference self)) = Inr (best_matches, distances)"
    and "snd (recoginze self img threshold) = Inr rs"
    and "i < length detected"
  shows "(\<exists>r\<in>set rs. id' r = i) \<and>
         (\<forall>r\<in>set rs. id' r = i \<longrightarrow>
            coordinates r = box (detected ! i) \<and>
            (threshold < distances ! i \<longrightarrow>
               best_match r = names (reference self) ! (best_matches ! i) \<and>
               distance r = distances ! i) \<and>
            (distances ! i \<le> threshold \<longrightarrow>
               best_match r = ''unknown'' \<and> distance r = - 1))"
proof -
  from assms(6) have "detected \<noteq> []" by auto
  with recoginze_Inr [OF assms(5) assms(1)] assms(2,4)
  have rs: "rs = map (make_result threshold)
                    (sort_key (\<lambda>(i, b, n, d). fst b)
                       (enumerate 0 (zip (map box detected)
                          (zip (map (\<lambda>i. names (reference self) ! i) best_matches) distances))))"
    by auto
  let ?T = "enumerate 0 (zip (map box detected)
              (zip (map (\<lambda>i. names (reference self) ! i) best_matches) distances))"
  have len: "length best_matches = length detected" "length distances = length detected"
    using find_closest_lengths [OF assms(4)] assms(3) by simp_all
  have set_rs: "set rs = make_result threshold ` set ?T"
    by (simp add: rs)
  let ?x = "(i, box (detected ! i), names (reference self) ! (best_matches ! i), distances ! i)"
  have "?x \<in> set ?T"
    using assms(6) len by (simp add: in_set_tuples)
  then have "make_result threshold ?x \<in> set rs"
    unfolding set_rs by (rule imageI)
  moreover have "id' (make_result threshold ?x) = i"
    by (simp add: make_result_def)
  ultimately have 1: "\<exists>r\<in>set rs. id' r = i" by blast
  have 2: "coordinates r = box (detected ! i) \<and>
            (threshold < distances ! i \<longrightarrow>
               best_match r = names (reference self) ! (best_matches ! i) \<and>
               distance r = distances ! i) \<and>
            (distances ! i \<le> threshold \<longrightarrow>
               best_match r = ''unknown'' \<and> distance r = - 1)"
    if "r \<in> set rs" "id' r = i" for r
  proof -
    from that(1) set_rs obtain j b n d where
      x: "(j, b, n, d) \<in> set ?T" and r: "r = make_result threshold (j, b, n, d)"
      by auto
    from r that(2) have "j = i" by (simp add: make_result_def)
    with x r show ?thesis
      by (simp add: in_set_tuples make_result_def)
  qed
  from 1 2 show ?thesis by blast
qed

theorem recoginze_threshold_rule_witness:
  "detector scenario_matcher 3 = Inr (take 3 scenario_faces) \<and>
   encoder scenario_matcher (map image' (take 3 scenario_faces)) = Inr three_vectors \<and>
   nrows three_vectors = length (take 3 scenario_faces) \<and>
   find_closest three_vectors (embeddings (reference scenario_matcher)) =
     Inr ([0, 1, 0], [1, 1, 1 / 2]) \<and>
   snd (recoginze scenario_matcher 3 (1 / 2)) =
     Inr [\<lparr>id' = 1, coordinates = (10, 0, 20, 10), best_match = ''bob'', distance = 1\<rparr>,
          \<lparr>id' = 2, coordinates = (30, 0, 40, 10), best_match = ''unknown'', distance = - 1\<rparr>,
          \<lparr>id' = 0, coordinates = (50, 0, 60, 10), best_match = ''alice'', distance = 1\<rparr>] \<and>
   2 < length (take 3 scenario_faces) \<and> [1, 1, 1 / 2] ! 2 \<le> (1 / 2 :: real) \<and>
   best_match \<lparr>id' = 2, coordinates = (30, 0, 40, 10), best_match = ''unknown'', distance = - 1\<rparr>
     = ''unknown'' \<and>
   distance \<lparr>id' = 2, coordinates = (30, 0, 40, 10), best_match = ''unknown'', distance = - 1\<rparr>
     = - 1"
proof -
  let ?r = "\<lparr>id' = 2, coordinates = (30, 0, 40, 10), best_match = ''unknown'', distance = - 1\<rparr>"
  let ?rs = "[\<lparr>id' = 1, coordinates = (10, 0, 20, 10), best_match = ''bob'', distance = 1\<rparr>, ?r,
          \<lparr>id' = 0, coordinates = (50, 0, 60, 10), best_match = ''alice'', distance = 1\<rparr>]"
  have det: "detector scenario_matcher 3 = Inr (take 3 scenario_faces)"
    by (simp add: scenario_matcher_def)
  have enc: "encoder scenario_matcher (map image' (take 3 scenario_faces)) = Inr three_vectors"
    by (simp add: scenario_matcher_def scenario_faces_def three_vectors_def encode_image_def)
  have n: "nrows three_vectors = length (take 3 scenario_faces)"
    by (simp add: three_vectors_def scenario_faces_def nrows_def)
  have fc: "find_closest three_vectors (embeddings (reference scenario_matcher)) =
     Inr ([0, 1, 0], [1, 1, 1 / 2])"
    by (simp add: three_vectors_def scenario_matcher_def scenario_reference_def
        scenario_vectors_def find_closest_eval)
  have ev: "snd (recoginze scenario_matcher 3 (1 / 2)) = Inr ?rs"
    by (simp add: recoginze_eval)
  have i: "2 < length (take 3 scenario_faces)" by (simp add: scenario_faces_def)
  have le: "[1, 1, 1 / 2] ! 2 \<le> (1 / 2 :: real)" by simp
  have mem: "?r \<in> set ?rs" by simp
  have idr: "id' ?r = 2" by simp
  note unknown = recoginze_threshold_rule [OF det enc n fc ev i, THEN conjunct2, THEN bspec,
      OF mem, THEN mp, OF idr, THEN conjunct2, THEN conjunct2, THEN mp, OF le]
  show ?thesis
    by (intro conjI det enc n fc ev i le unknown [THEN conjunct1] unknown [THEN conjunct2])
qed

text \<open>
  C10, as amended: for thresholds \<open>t1 \<le> t2\<close> the two result lists have the same length and
  order; a result labelled \<open>unknown\<close> at \<open>t1\<close> is labelled \<open>unknown\<close> at \<open>t2\<close>; and each result at
  \<open>t2\<close> is either the result at \<open>t1\<close> or that result with the label \<open>unknown\<close> and the score
  \<open>-1\<close>. So the identifier and the coordinates agree, while the score changes together with
  the label.
\<close>

theorem recoginze_threshold_monotone:
  assumes "t1 \<le> t2"
    and "snd (recoginze self img t1) = Inr rs1"
    and "snd (recoginze self img t2) = Inr rs2"
  shows "length rs1 = length rs2 \<and>
         (\<forall>p<length rs1.
            id' (rs2 ! p) = id' (rs1 ! p) \<and>
            coordinates (rs2 ! p) = coordinates (rs1 ! p) \<and>
            (best_match (rs1 ! p) = ''unknown'' \<longrightarrow> best_match (rs2 ! p) = ''unknown'') \<and>
            (rs2 ! p = rs1 ! p \<or>
             rs2 ! p = (rs1 ! p)\<lparr>best_match := ''unknown'', distance := - 1\<rparr>))"
proof -
  obtain detected where det: "detector self img = Inr detected"
    using assms(2) by (cases "detector self img") (simp_all add: recoginze_def)
  show ?thesis
  proof (cases "detected = []")
    case True
    with recoginze_Inr [OF assms(2) det] recoginze_Inr [OF assms(3) det] show ?thesis by simp
  next
    case False
    with recoginze_Inr [OF assms(2) det] recoginze_Inr [OF assms(3) det]
    obtain S where "rs1 = map (make_result t1) S" "rs2 = map (make_result t2) S"
      by auto
    with make_result_raise_threshold [OF assms(1)] show ?thesis
      by simp
  qed
qed

theorem recoginze_threshold_monotone_witness:
  "(0 :: real) \<le> 1 / 2 \<and>
   snd (recoginze scenario_matcher 3 0) =
     Inr [\<lparr>id' = 1, coordinates = (10, 0, 20, 10), best_match = ''bob'', distance = 1\<rparr>,
          \<lparr>id' = 2, coordinates = (30, 0, 40, 10), best_match = ''alice'', distance = 1 / 2\<rparr>,
          \<lparr>id' = 0, coordinates = (50, 0, 60, 10), best_match = ''alice'', distance = 1\<rparr>] \<and>
   snd (recoginze scenario_matcher 3 (1 / 2)) =
     Inr [\<lparr>id' = 1, coordinates = (10, 0, 20, 10), best_match = ''bob'', distance = 1\<rparr>,
          \<lparr>id' = 2, coordinates = (30, 0, 40, 10), best_match = ''unknown'', distance = - 1\<rparr>,
          \<lparr>id' = 0, coordinates = (50, 0, 60, 10), best_match = ''alice'', distance = 1\<rparr>] \<and>
   \<lparr>id' = 2, coordinates = (30, 0, 40, 10), best_match = ''unknown'', distance = - 1\<rparr> =
   \<lparr>id' = 2, coordinates = (30, 0, 40, 10), best_match = ''alice'', distance = 1 / 2\<rparr>
     \<lparr>best_match := ''unknown'', distance := - 1\<rparr>"
proof -
  let ?rs1 = "[\<lparr>id' = 1, coordinates = (10, 0, 20, 10), best_match = ''bob'', distance = 1\<rparr>,
          \<lparr>id' = 2, coordinates = (30, 0, 40, 10), best_match = ''alice'', distance = 1 / 2\<rparr>,
          \<lparr>id' = 0, coordinates = (50, 0, 60, 10), best_match = ''alice'', distance = 1\<rparr>]"
  let ?rs2 = "[\<lparr>id' = 1, coordinates = (10, 0, 20, 10), best_match = ''bob'', distance = 1\<rparr>,
          \<lparr>id' = 2, coordinates = (30, 0, 40, 10), best_match = ''unknown'', distance = - 1\<rparr>,
          \<lparr>id' = 0, coordinates = (50, 0, 60, 10), best_match = ''alice'', distance = 1\<rparr>]"
  have t: "(0 :: real) \<le> 1 / 2" by simp
  have ev1: "snd (recoginze scenario_matcher 3 0) = Inr ?rs1"
    by (simp add: recoginze_eval)
  have ev2: "snd (recoginze scenario_matcher 3 (1 / 2)) = Inr ?rs2"
    by (simp add: recoginze_eval)
  have p: "(1 :: nat) < length ?rs1" by simp
  from recoginze_threshold_monotone [OF t ev1 ev2, THEN conjunct2, THEN spec, THEN mp, OF p,
      THEN conjunct2, THEN conjunct2, THEN conjunct2]
  have g: "\<lparr>id' = 2, coordinates = (30, 0, 40, 10), best_match = ''unknown'', distance = - 1\<rparr> =
   \<lparr>id' = 2, coordinates = (30, 0, 40, 10), best_match = ''alice'', distance = 1 / 2\<rparr>
     \<lparr>best_match := ''unknown'', distance := - 1\<rparr>"
    by simp
  show ?thesis by (intro conjI t ev1 ev2 g)
qed

text \<open>
  The two lists do not agree on every field other than the label: a face whose best score
  lies between the two thresholds has its score at the lower threshold and \<open>-1\<close> at the higher.
\<close>

theorem recoginze_threshold_fields_counterexample:
  "(0 :: real) \<le> 1 \<and>
   snd (recoginze scenario_matcher 1 0) =
     Inr [\<lparr>id' = 0, coordinates = (50, 0, 60, 10), best_match = ''alice'', distance = 1\<rparr>] \<and>
   snd (recoginze scenario_matcher 1 1) =
     Inr [\<lparr>id' = 0, coordinates = (50, 0, 60, 10), best_match = ''unknown'', distance = - 1\<rparr>] \<and>
   distance \<lparr>id' = 0, coordinates = (50, 0, 60, 10), best_match = ''alice'', distance = 1\<rparr> \<noteq>
   distance \<lparr>id' = 0, coordinates = (50, 0, 60, 10), best_match = ''unknown'', distance = - 1\<rparr>"
proof -
  have t: "(0 :: real) \<le> 1" by simp
  have ev1: "snd (recoginze scenario_matcher 1 0) =
     Inr [\<lparr>id' = 0, coordinates = (50, 0, 60, 10), best_match = ''alice'', distance = 1\<rparr>]"
    by (simp add: recoginze_eval)
  have ev2: "snd (recoginze scenario_matcher 1 1) =
     Inr [\<lparr>id' = 0, coordinates = (50, 0, 60, 10), best_match = ''unknown'', distance = - 1\<rparr>]"
    by (simp add: recoginze_eval)
  have ne: "distance \<lparr>id' = 0, coordinates = (50, 0, 60, 10), best_match = ''alice'', distance = 1\<rparr> \<noteq>
   distance \<lparr>id' = 0, coordinates = (50, 0, 60, 10), best_match = ''unknown'', distance = - 1\<rparr>"
    by simp
  show ?thesis by (intro conjI t ev1 ev2 ne)
qed

end
